theory Spec2Isabelle
  imports Complex_Main
begin

section \<open>Configuration (bot/config.py)\<close>

text \<open>
  The fields of \<^verbatim>\<open>BotConfig\<close> that the completion client and the reply sender read.
  Python's unbounded \<^verbatim>\<open>int\<close> is \<^typ>\<open>int\<close>; the \<^verbatim>\<open>float\<close> base delay and all clock
  readings are idealised as \<^typ>\<open>real\<close> (the only float operations of the client are
  comparison, subtraction and a multiplication by a power of two).
\<close>

record config =
  system_prompt :: string
  model_name :: string
  max_history_messages :: int
  max_response_length :: int
  rate_limit_requests :: int
  rate_limit_window :: int
  retry_delay_base :: real
  max_retries :: int

text \<open>\<^verbatim>\<open>BotConfig._get_system_prompt\<close> with \<^verbatim>\<open>SYSTEM_PROMPT\<close> unset.\<close>

definition default_prompt :: string where
  "default_prompt =
     ''You are a friendly and helpful AI assistant on Discord. '' @ [CHR 0x0A] @
     ''        You should be conversational, engaging, and provide useful responses. '' @ [CHR 0x0A] @
     ''        Keep your messages concise but informative. Use Discord markdown when appropriate '' @ [CHR 0x0A] @
     ''        (like **bold** for emphasis, `code` for code snippets, etc.). '' @ [CHR 0x0A] @
     ''        Be respectful and maintain a positive tone in all interactions.''"

text \<open>\<^verbatim>\<open>BotConfig.__init__\<close> when no environment variable is set.\<close>

definition BotConfig :: config where
  "BotConfig =
     \<lparr> system_prompt = default_prompt,
       model_name = ''deepseek/deepseek-r1-0528-qwen3-8b:free'',
       max_history_messages = 20,
       max_response_length = 2000,
       rate_limit_requests = 10,
       rate_limit_window = 60,
       retry_delay_base = 1,
       max_retries = 3 \<rparr>"

section \<open>Messages, requests and what the remote side answers\<close>

text \<open>
  A message is a Python \<^verbatim>\<open>Dict[str, str]\<close>: an association list, read with \<^const>\<open>map_of\<close>
  as \<^verbatim>\<open>dict.get\<close> reads it.
\<close>

type_synonym message = "(string \<times> string) list"

definition system_message :: "config \<Rightarrow> message" where
  "system_message cfg = [(''role'', ''system''), (''content'', system_prompt cfg)]"

definition is_system :: "message \<Rightarrow> bool" where
  "is_system m = (map_of m ''role'' = Some ''system'')"

definition system_turns :: "message list \<Rightarrow> nat" where
  "system_turns ms = length (filter is_system ms)"

text \<open>The JSON body of the request (\<^verbatim>\<open>payload\<close>, lines 110-117).\<close>

record payload =
  model :: string
  messages :: "message list"
  max_tokens :: int
  temperature :: real
  top_p :: real
  stream :: bool

text \<open>
  The part of the response body that the client reads:
  \<^verbatim>\<open>data["choices"][0]["message"]["content"]\<close>. A key of a JSON object may be absent
  (\<^const>\<open>None\<close>); the content may be \<^verbatim>\<open>null\<close>. The choices, when present, are a
  list of objects, as the remote API sends them. A body that is not JSON at all makes
  \<^verbatim>\<open>response.json()\<close> raise, which is an exception outcome below.
\<close>

datatype jvalue = JNull | JStr string

datatype message_obj = MessageObj (content: "jvalue option")

datatype choice = Choice (message: "message_obj option")

datatype data = Data (choices: "choice list option")

text \<open>
  What one \<^verbatim>\<open>session.post\<close> does: it answers with a status and a body, or the
  30 second deadline expires (\<^verbatim>\<open>asyncio.TimeoutError\<close>), or any other exception is
  raised, of which the client uses \<^verbatim>\<open>str(e)\<close>.
\<close>

datatype outcome = Response int data | TimeoutError | Exception string

text \<open>
  The remote side: the answer to the \<open>k\<close>-th post issued through the client, together
  with the time the post takes.
\<close>

type_synonym remote = "nat \<Rightarrow> real \<times> outcome"

section \<open>The client's state\<close>

text \<open>
  \<open>request_times\<close> is the field of the client object, \<open>clock\<close> what \<^verbatim>\<open>time.time()\<close>
  returns. \<open>posted\<close> counts the posts issued, and \<open>trace\<close> is a history variable: the
  ledger checks, sleeps, ledger records and posts in the order they happened.
\<close>

datatype event = Checked bool | Slept real | Recorded real | Posted real payload

record world =
  request_times :: "real list"
  clock :: real
  posted :: nat
  trace :: "event list"

definition log_event :: "event \<Rightarrow> world \<Rightarrow> world" where
  "log_event e w = w\<lparr>trace := trace w @ [e]\<rparr>"

text \<open>\<^verbatim>\<open>asyncio.sleep(d)\<close>: a delay that is not positive returns at once.\<close>

definition sleep :: "real \<Rightarrow> world \<Rightarrow> world" where
  "sleep d w = log_event (Slept d) (w\<lparr>clock := clock w + max 0 d\<rparr>)"

text \<open>\<^verbatim>\<open>session.post(...)\<close>: issued at the current time, answered by the remote side.\<close>

definition post :: "remote \<Rightarrow> payload \<Rightarrow> world \<Rightarrow> outcome \<times> world" where
  "post rem p w =
     (let (elapsed, out) = rem (posted w)
      in (out, (log_event (Posted (clock w) p) w)\<lparr>clock := clock w + elapsed, posted := Suc (posted w)\<rparr>))"

section \<open>The rate limiter (bot/openrouter\_client.py, lines 44-71)\<close>

definition check_rate_limit :: "config \<Rightarrow> world \<Rightarrow> bool \<times> world" where
  "check_rate_limit cfg w =
     (let current_time = clock w;
          kept = filter (\<lambda>req_time. current_time - req_time < of_int (rate_limit_window cfg))
                   (request_times w);
          ok = (int (length kept) < rate_limit_requests cfg)
      in (ok, log_event (Checked ok) (w\<lparr>request_times := kept\<rparr>)))"

definition record_request :: "world \<Rightarrow> world" where
  "record_request w = log_event (Recorded (clock w)) (w\<lparr>request_times := request_times w @ [clock w]\<rparr>)"

definition wait_for_rate_limit :: "config \<Rightarrow> world \<Rightarrow> world" where
  "wait_for_rate_limit cfg w =
     (if request_times w = [] then w
      else
        let oldest_request = min_list (request_times w);
            wait_time = of_int (rate_limit_window cfg) - (clock w - oldest_request)
        in if wait_time > 0 then sleep wait_time w else w)"

section \<open>Text helpers\<close>

text \<open>
  \<^verbatim>\<open>str.strip()\<close>. A character is a code point below 256; the ones Python strips
  there are tab, line feed, vertical tab, form feed, carriage return, the four
  separators 0x1C-0x1F, space, next line (0x85) and no-break space (0xA0).
\<close>

definition is_space :: "char \<Rightarrow> bool" where
  "is_space c = (c \<in> set [CHR 0x09, CHR 0x0A, CHR 0x0B, CHR 0x0C, CHR 0x0D,
                            CHR 0x1C, CHR 0x1D, CHR 0x1E, CHR 0x1F, CHR '' '',
                            CHR 0x85, CHR 0xA0])"

definition strip :: "string \<Rightarrow> string" where
  "strip s = rev (dropWhile is_space (rev (dropWhile is_space s)))"

text \<open>\<^verbatim>\<open>str(n)\<close> of an integer, as the f-string of line 160 formats the status.\<close>

fun str_nat :: "nat \<Rightarrow> string" where
  "str_nat n =
     (if n < 10 then [''0123456789'' ! n]
      else str_nat (n div 10) @ [''0123456789'' ! (n mod 10)])"

definition str_int :: "int \<Rightarrow> string" where
  "str_int i = (if i < 0 then ''-'' @ str_nat (nat (- i)) else str_nat (nat i))"

section \<open>generate\_response (bot/openrouter\_client.py, lines 73-172)\<close>

text \<open>Lines 103-108: the system prompt is inserted when the list does not start with one.\<close>

definition add_system_prompt :: "config \<Rightarrow> message list \<Rightarrow> message list" where
  "add_system_prompt cfg msgs =
     (if msgs = [] \<or> map_of (hd msgs) ''role'' \<noteq> Some ''system''
      then system_message cfg # msgs
      else msgs)"

text \<open>Lines 110-117.\<close>

definition make_payload :: "config \<Rightarrow> message list \<Rightarrow> payload" where
  "make_payload cfg msgs =
     \<lparr> model = model_name cfg,
       messages = msgs,
       max_tokens = max_response_length cfg,
       temperature = 7 / 10,
       top_p = 9 / 10,
       stream = False \<rparr>"

text \<open>
  Line 132 and the \<^verbatim>\<open>.strip()\<close> of line 134 on the first choice: the stripped text, or
  \<^verbatim>\<open>str(e)\<close> of the \<^verbatim>\<open>KeyError\<close> or \<^verbatim>\<open>AttributeError\<close> that the expression raises.
\<close>

definition quoted :: "string \<Rightarrow> string" where
  "quoted s = [CHR 0x27] @ s @ [CHR 0x27]"

definition read_content :: "choice \<Rightarrow> string + string" where
  "read_content c =
     (case message c of
        None \<Rightarrow> Inl (quoted ''message'')
      | Some m \<Rightarrow>
          (case content m of
             None \<Rightarrow> Inl (quoted ''content'')
           | Some JNull \<Rightarrow>
               Inl (quoted ''NoneType'' @ '' object has no attribute '' @ quoted ''strip'')
           | Some (JStr s) \<Rightarrow> Inr (strip s)))"

text \<open>
  The method itself. It returns the value of the Python function (\<^verbatim>\<open>Optional[str]\<close>),
  the contents of the caller's list object \<^verbatim>\<open>messages\<close> after the call (line 105 mutates
  it in place, and a retry passes the same object on), and the state. The two
  \<^verbatim>\<open>except\<close> clauses are the \<^const>\<open>TimeoutError\<close> and \<^const>\<open>Exception\<close> branches; an
  exception raised while the body of a 200 response is read is caught by the second
  clause as well.
\<close>

function generate_response ::
  "config \<Rightarrow> remote \<Rightarrow> message list \<Rightarrow> nat \<Rightarrow> world \<Rightarrow> string option \<times> message list \<times> world"
where
  "generate_response cfg rem msgs retry_count w =
     (let (ok, w1) = check_rate_limit cfg w;
          w2 = (if \<not> ok then wait_for_rate_limit cfg w1 else w1);
          msgs' = add_system_prompt cfg msgs;
          payload = make_payload cfg msgs';
          w3 = record_request w2;
          (out, w4) = post rem payload w3
      in case out of
           Response status body \<Rightarrow>
             if status = 200 then
               (case choices body of
                  None \<Rightarrow> (None, msgs', w4)
                | Some [] \<Rightarrow> (None, msgs', w4)
                | Some (c # cs) \<Rightarrow>
                    (case read_content c of
                       Inr text \<Rightarrow> (Some text, msgs', w4)
                     | Inl e \<Rightarrow>
                         if int retry_count < max_retries cfg
                         then generate_response cfg rem msgs' (retry_count + 1) w4
                         else (Some (''Sorry, I encountered an unexpected error: '' @ e), msgs', w4)))
             else if status = 429 then
               (if int retry_count < max_retries cfg
                then generate_response cfg rem msgs' (retry_count + 1)
                       (sleep (retry_delay_base cfg * 2 ^ retry_count) w4)
                else (Some ''Sorry, I'm currently rate limited. Please try again later.'', msgs', w4))
             else
               (if int retry_count < max_retries cfg
                then generate_response cfg rem msgs' (retry_count + 1)
                       (sleep (retry_delay_base cfg * 2 ^ retry_count) w4)
                else (Some (''Sorry, I encountered an error: '' @ str_int status), msgs', w4))
         | TimeoutError \<Rightarrow>
             if int retry_count < max_retries cfg
             then generate_response cfg rem msgs' (retry_count + 1) w4
             else (Some ''Sorry, the request timed out. Please try again.'', msgs', w4)
         | Exception e \<Rightarrow>
             if int retry_count < max_retries cfg
             then generate_response cfg rem msgs' (retry_count + 1) w4
             else (Some (''Sorry, I encountered an unexpected error: '' @ e), msgs', w4))"
  by pat_completeness auto
termination
  by (relation "measure (\<lambda>(cfg, rem, msgs, retry_count, w). nat (max_retries cfg - int retry_count))") auto

declare generate_response.simps [simp del]

text \<open>\<^verbatim>\<open>OpenRouterClient.__init__\<close>: an empty ledger; nothing has happened yet.\<close>

definition OpenRouterClient :: "real \<Rightarrow> world" where
  "OpenRouterClient now = \<lparr> request_times = [], clock = now, posted = 0, trace = [] \<rparr>"

text \<open>Time that passes between two calls of the client.\<close>

definition idle :: "real \<Rightarrow> world \<Rightarrow> world" where
  "idle g w = w\<lparr>clock := clock w + g\<rparr>"

section \<open>Sending the reply (bot/discord\_client.py, lines 154-173, 206-214, 241-257)\<close>

text \<open>
  What the three callers of \<^verbatim>\<open>generate_response\<close> send to the channel. \<^verbatim>\<open>if response:\<close>
  fails for \<^verbatim>\<open>None\<close> and for the empty string, and then the caller's apology is
  sent. Otherwise a reply longer than 2000 characters is sent as
  \<^verbatim>\<open>[response[i:i+2000] for i in range(0, len(response), 2000)]\<close>, a shorter one as
  it is. The range has one index \<open>2000 * k\<close> for each \<open>k\<close> below the length divided
  by 2000, rounded up. The apology is the caller's literal (lines 173, 214 and 257).
\<close>

definition send_response :: "string \<Rightarrow> string option \<Rightarrow> string list" where
  "send_response apology response =
     (case response of
        None \<Rightarrow> [apology]
      | Some r \<Rightarrow>
          if r = [] then [apology]
          else if length r > 2000
          then map (\<lambda>k. take 2000 (drop (2000 * k) r)) [0 ..< (length r + 1999) div 2000]
          else [r])"

definition apology_message :: string where
  "apology_message = ''Sorry, I couldn't generate a response right now. Please try again.''"

definition apology_ask :: string where
  "apology_ask = ''Sorry, I couldn't generate a response to your question.''"

definition apology_chat :: string where
  "apology_chat = ''Sorry, I couldn't generate a response.''"

section \<open>The conversation store\<close>

datatype role = System | User | Assistant

datatype conversation_key = ChannelKey int | UserKey int

type_synonym turn = "role \<times> string"

type_synonym store = "conversation_key \<rightharpoonup> turn list"

text \<open>
  Modelled from the spec: \<^verbatim>\<open>context(key)\<close> of the Conversation Store; the module
  \<^verbatim>\<open>bot/chat_manager.py\<close> that \<^verbatim>\<open>discord_client.py\<close> imports is not among the sources.
  "Returns the current ordered sequence of Turns for key (empty sequence if key unseen)."
\<close>

definition context_of :: "conversation_key \<Rightarrow> store \<Rightarrow> turn list" where
  "context_of key s = (case s key of None \<Rightarrow> [] | Some turns \<Rightarrow> turns)"

text \<open>
  Modelled from the spec: \<^verbatim>\<open>append(key, role, content)\<close> of the Conversation Store
  (\<^verbatim>\<open>bot/chat_manager.py\<close> is not among the sources). "Appends a Turn to key's log,
  creating the log if absent, evicting the oldest turn if at capacity"; "when an append
  would exceed it, the oldest turn is evicted first (FIFO)".
\<close>

definition append_turn :: "nat \<Rightarrow> conversation_key \<Rightarrow> role \<Rightarrow> string \<Rightarrow> store \<Rightarrow> store" where
  "append_turn maxTurns key r text s =
     (let turns = context_of key s;
          turns' = (if length turns \<ge> maxTurns then tl turns else turns)
      in s(key \<mapsto> turns' @ [(r, text)]))"

text \<open>A finite sequence of \<^verbatim>\<open>append\<close> calls, in call order.\<close>

fun appends :: "nat \<Rightarrow> (conversation_key \<times> role \<times> string) list \<Rightarrow> store \<Rightarrow> store" where
  "appends maxTurns [] s = s"
| "appends maxTurns ((key, r, text) # calls) s = appends maxTurns calls (append_turn maxTurns key r text s)"

text \<open>The turns that a sequence of calls appends to one key, and the last \<open>n\<close> of a list.\<close>

definition turns_for :: "conversation_key \<Rightarrow> (conversation_key \<times> role \<times> string) list \<Rightarrow> turn list" where
  "turns_for key calls = map snd (filter (\<lambda>c. fst c = key) calls)"

definition last_n :: "nat \<Rightarrow> 'a list \<Rightarrow> 'a list" where
  "last_n n xs = drop (length xs - n) xs"

section \<open>Observations on a run\<close>

text \<open>
  The three components of what a call leaves behind: the value returned, the contents of
  the caller's list object, and the state.
\<close>

definition returned :: "string option \<times> message list \<times> world \<Rightarrow> string option" where
  "returned x = fst x"

definition caller_messages :: "string option \<times> message list \<times> world \<Rightarrow> message list" where
  "caller_messages x = fst (snd x)"

definition final :: "string option \<times> message list \<times> world \<Rightarrow> world" where
  "final x = snd (snd x)"

text \<open>Example inputs: a user turn, a system turn, and bodies of 200 responses.\<close>

definition hello_body :: data where
  "hello_body = Data (Some [Choice (Some (MessageObj (Some (JStr '' hello ''))))])"

definition user_hi :: message where
  "user_hi = [(''role'', ''user''), (''content'', ''hi'')]"

definition system_other :: message where
  "system_other = [(''role'', ''system''), (''content'', ''Be brief.'')]"

definition always :: "outcome \<Rightarrow> remote" where
  "always out k = (1, out)"

definition timeout_then_hello :: remote where
  "timeout_then_hello k = (if k = 0 then (30, TimeoutError) else (1, Response 200 hello_body))"

definition rate_limited_then_hello :: remote where
  "rate_limited_then_hello k = (if k = 0 then (1, Response 429 (Data None)) else (1, Response 200 hello_body))"

definition empty_content_body :: data where
  "empty_content_body = Data (Some [Choice (Some (MessageObj (Some (JStr []))))])"

definition no_content_body :: data where
  "no_content_body = Data (Some [Choice (Some (MessageObj None))])"

text \<open>
  The times of the posts, the requests posted, the times recorded in the ledger, the
  results of the budget checks and the delays slept, each in order.
\<close>

fun post_times :: "event list \<Rightarrow> real list" where
  "post_times [] = []"
| "post_times (Posted t p # es) = t # post_times es"
| "post_times (e # es) = post_times es"

fun requests :: "event list \<Rightarrow> payload list" where
  "requests [] = []"
| "requests (Posted t p # es) = p # requests es"
| "requests (e # es) = requests es"

fun records :: "event list \<Rightarrow> real list" where
  "records [] = []"
| "records (Recorded t # es) = t # records es"
| "records (e # es) = records es"

fun checks :: "event list \<Rightarrow> bool list" where
  "checks [] = []"
| "checks (Checked b # es) = b # checks es"
| "checks (e # es) = checks es"

fun sleeps :: "event list \<Rightarrow> real list" where
  "sleeps [] = []"
| "sleeps (Slept d # es) = d # sleeps es"
| "sleeps (e # es) = sleeps es"

text \<open>The events that a step from \<open>w\<close> to \<open>w'\<close> added to the trace.\<close>

definition since :: "world \<Rightarrow> world \<Rightarrow> event list" where
  "since w w' = drop (length (trace w)) (trace w')"

text \<open>
  The outcomes on which \<^const>\<open>generate_response\<close> takes a retry branch (lines 139-172),
  and the text it returns when such an outcome meets an exhausted retry count
  (lines 149, 160, 166 and 172).
\<close>

fun retryable :: "outcome \<Rightarrow> bool" where
  "retryable (Response status body) =
     (if status = 200
      then (case choices body of Some (c # cs) \<Rightarrow> isl (read_content c) | _ \<Rightarrow> False)
      else True)"
| "retryable TimeoutError = True"
| "retryable (Exception e) = True"

fun failure_message :: "outcome \<Rightarrow> string" where
  "failure_message (Response status body) =
     (if status = 200
      then (case choices body of
              Some (c # cs) \<Rightarrow>
                (case read_content c of
                   Inl e \<Rightarrow> ''Sorry, I encountered an unexpected error: '' @ e
                 | Inr text \<Rightarrow> text)
            | _ \<Rightarrow> [])
      else if status = 429 then ''Sorry, I'm currently rate limited. Please try again later.''
      else ''Sorry, I encountered an error: '' @ str_int status)"
| "failure_message TimeoutError = ''Sorry, the request timed out. Please try again.''"
| "failure_message (Exception e) = ''Sorry, I encountered an unexpected error: '' @ e"

text \<open>
  What line 132 reads when it reads a string: the value at
  \<^verbatim>\<open>choices[0].message.content\<close>, when the choices are present and not empty and the
  first one has a message whose content is a string. The string may be empty.
\<close>

definition content_string :: "data \<Rightarrow> string option" where
  "content_string body =
     (case choices body of
        Some (Choice (Some (MessageObj (Some (JStr s)))) # cs) \<Rightarrow> Some s
      | _ \<Rightarrow> None)"




section \<open>The structure of generate\_response\<close>

text \<open>
  The same function read in three parts: the budget gate (lines 90-92), the attempt up
  to the answer of the remote side (lines 103-126), and the branch the answer selects,
  which either ends the call or asks for a retry, with the backoff delay (if the branch
  sleeps) and the text returned when no retry is left.
\<close>

definition gate :: "config \<Rightarrow> world \<Rightarrow> world" where
  "gate cfg w = (let (ok, w1) = check_rate_limit cfg w in if \<not> ok then wait_for_rate_limit cfg w1 else w1)"

definition attempt :: "config \<Rightarrow> remote \<Rightarrow> message list \<Rightarrow> world \<Rightarrow> outcome \<times> world" where
  "attempt cfg rem msgs w =
     post rem (make_payload cfg (add_system_prompt cfg msgs)) (record_request (gate cfg w))"

datatype verdict = Final "string option" | Retry "real option" string

definition judge :: "config \<Rightarrow> nat \<Rightarrow> outcome \<Rightarrow> verdict" where
  "judge cfg retry_count out =
     (case out of
        Response status body \<Rightarrow>
          if status = 200 then
            (case choices body of
               None \<Rightarrow> Final None
             | Some [] \<Rightarrow> Final None
             | Some (c # cs) \<Rightarrow>
                 (case read_content c of
                    Inr text \<Rightarrow> Final (Some text)
                  | Inl e \<Rightarrow> Retry None (''Sorry, I encountered an unexpected error: '' @ e)))
          else if status = 429 then
            Retry (Some (retry_delay_base cfg * 2 ^ retry_count))
              ''Sorry, I'm currently rate limited. Please try again later.''
          else
            Retry (Some (retry_delay_base cfg * 2 ^ retry_count))
              (''Sorry, I encountered an error: '' @ str_int status)
      | TimeoutError \<Rightarrow> Retry None ''Sorry, the request timed out. Please try again.''
      | Exception e \<Rightarrow> Retry None (''Sorry, I encountered an unexpected error: '' @ e))"

definition backoff :: "real option \<Rightarrow> world \<Rightarrow> world" where
  "backoff d w = (case d of None \<Rightarrow> w | Some x \<Rightarrow> sleep x w)"

section \<open>Basic facts\<close>

lemma generate_response_unfold:
  "generate_response cfg rem msgs retry_count w =
     (case judge cfg retry_count (fst (attempt cfg rem msgs w)) of
        Final r \<Rightarrow> (r, add_system_prompt cfg msgs, snd (attempt cfg rem msgs w))
      | Retry d m \<Rightarrow>
          if int retry_count < max_retries cfg
          then generate_response cfg rem (add_system_prompt cfg msgs) (Suc retry_count)
                 (backoff d (snd (attempt cfg rem msgs w)))
          else (Some m, add_system_prompt cfg msgs, snd (attempt cfg rem msgs w)))"
  apply (subst generate_response.simps)
  apply (simp add: attempt_def gate_def judge_def backoff_def Let_def
      split: prod.splits outcome.splits option.splits list.splits sum.splits)
  done


lemma add_system_prompt_idem [simp]:
  "add_system_prompt cfg (add_system_prompt cfg msgs) = add_system_prompt cfg msgs"
  by (simp add: add_system_prompt_def system_message_def)

lemma retry_induct [case_names attempt]:
  assumes step: "\<And>msgs retry_count w.
      (\<And>d. int retry_count < max_retries cfg \<Longrightarrow>
         P (add_system_prompt cfg msgs) (Suc retry_count) (backoff d (snd (attempt cfg rem msgs w))))
      \<Longrightarrow> P msgs retry_count w"
  shows "P msgs retry_count w"
proof -
  have "\<forall>ms rc v. n = nat (max_retries cfg - int rc) \<longrightarrow> P ms rc v" for n
  proof (induction n)
    case 0
    show ?case
    proof (intro allI impI)
      fix ms rc v
      assume "0 = nat (max_retries cfg - int rc)"
      then have neg: "\<not> int rc < max_retries cfg" by simp
      show "P ms rc v" by (rule step) (simp add: neg)
    qed
  next
    case (Suc n)
    show ?case
    proof (intro allI impI)
      fix ms rc v
      assume n: "Suc n = nat (max_retries cfg - int rc)"
      show "P ms rc v"
      proof (rule step)
        fix d
        from n have "n = nat (max_retries cfg - int (Suc rc))" by simp
        with Suc.IH
        show "P (add_system_prompt cfg ms) (Suc rc) (backoff d (snd (attempt cfg rem ms v)))"
          by blast
      qed
    qed
  qed
  then show ?thesis by blast
qed

lemma posted_wait [simp]: "posted (wait_for_rate_limit cfg w) = posted w"
  by (simp add: wait_for_rate_limit_def sleep_def log_event_def Let_def)

lemma request_times_wait [simp]: "request_times (wait_for_rate_limit cfg w) = request_times w"
  by (simp add: wait_for_rate_limit_def sleep_def log_event_def Let_def)

lemma posted_check [simp]: "posted (snd (check_rate_limit cfg w)) = posted w"
  by (simp add: check_rate_limit_def log_event_def Let_def)

lemma posted_gate [simp]: "posted (gate cfg w) = posted w"
  by (cases "check_rate_limit cfg w") (use posted_check [of cfg w] in \<open>simp add: gate_def\<close>)


lemma request_times_gate:
  "request_times (gate cfg w) =
     filter (\<lambda>t. clock w - t < of_int (rate_limit_window cfg)) (request_times w)"
  by (simp add: gate_def check_rate_limit_def log_event_def Let_def)

lemma trace_wait:
  "trace (wait_for_rate_limit cfg w) = trace w \<or> (\<exists>d. trace (wait_for_rate_limit cfg w) = trace w @ [Slept d])"
  by (simp add: wait_for_rate_limit_def sleep_def log_event_def Let_def)

lemma trace_gate:
  "trace (gate cfg w) = trace w @ [Checked True] \<or>
   trace (gate cfg w) = trace w @ [Checked False] \<or>
   (\<exists>d. trace (gate cfg w) = trace w @ [Checked False, Slept d])"
  using trace_wait [of cfg "snd (check_rate_limit cfg w)"]
  by (auto simp add: gate_def check_rate_limit_def log_event_def Let_def)

lemma fst_attempt [simp]: "fst (attempt cfg rem msgs w) = snd (rem (posted w))"
  by (simp add: attempt_def post_def record_request_def log_event_def Let_def split: prod.splits)

lemma posted_attempt [simp]: "posted (snd (attempt cfg rem msgs w)) = Suc (posted w)"
  by (simp add: attempt_def post_def record_request_def log_event_def Let_def split: prod.splits)

lemma trace_attempt:
  "trace (snd (attempt cfg rem msgs w)) =
     trace (gate cfg w) @
       [Recorded (clock (gate cfg w)),
        Posted (clock (gate cfg w)) (make_payload cfg (add_system_prompt cfg msgs))]"
  by (simp add: attempt_def post_def record_request_def log_event_def Let_def split: prod.splits)

lemma request_times_attempt:
  "request_times (snd (attempt cfg rem msgs w)) = request_times (gate cfg w) @ [clock (gate cfg w)]"
  by (simp add: attempt_def post_def record_request_def log_event_def Let_def split: prod.splits)

lemma clock_attempt:
  "clock (snd (attempt cfg rem msgs w)) = clock (gate cfg w) + fst (rem (posted w))"
  by (simp add: attempt_def post_def record_request_def log_event_def Let_def split: prod.splits)

lemma posted_backoff [simp]: "posted (backoff d w) = posted w"
  by (simp add: backoff_def sleep_def log_event_def split: option.splits)

lemma request_times_backoff [simp]: "request_times (backoff d w) = request_times w"
  by (simp add: backoff_def sleep_def log_event_def split: option.splits)

lemma trace_backoff:
  "trace (backoff d w) = trace w @ (case d of None \<Rightarrow> [] | Some x \<Rightarrow> [Slept x])"
  by (simp add: backoff_def sleep_def log_event_def split: option.splits)


lemma messages_after:
  "caller_messages (generate_response cfg rem msgs retry_count w) = add_system_prompt cfg msgs"
proof (induction msgs retry_count w rule: retry_induct [where cfg = cfg and rem = rem])
  case (attempt msgs retry_count w)
  show ?case
    using attempt
    by (subst generate_response_unfold) (simp add: caller_messages_def split: verdict.splits)
qed


lemma requests_append [simp]: "requests (xs @ ys) = requests xs @ requests ys"
  by (induction xs rule: requests.induct) simp_all

lemma post_times_append [simp]: "post_times (xs @ ys) = post_times xs @ post_times ys"
  by (induction xs rule: post_times.induct) simp_all

lemma sleeps_append [simp]: "sleeps (xs @ ys) = sleeps xs @ sleeps ys"
  by (induction xs rule: sleeps.induct) simp_all

lemma requests_gate [simp]: "requests (trace (gate cfg w)) = requests (trace w)"
  using trace_gate [of cfg w] by auto

lemma post_times_gate [simp]: "post_times (trace (gate cfg w)) = post_times (trace w)"
  using trace_gate [of cfg w] by auto

lemma requests_backoff [simp]: "requests (trace (backoff d w)) = requests (trace w)"
  by (simp add: trace_backoff split: option.splits)

lemma requests_attempt:
  "requests (trace (snd (attempt cfg rem msgs w))) =
     requests (trace w) @ [make_payload cfg (add_system_prompt cfg msgs)]"
  by (simp add: trace_attempt)

lemma final_unfold:
  "final (generate_response cfg rem msgs retry_count w) =
     (case judge cfg retry_count (snd (rem (posted w))) of
        Final r \<Rightarrow> snd (attempt cfg rem msgs w)
      | Retry d m \<Rightarrow>
          if int retry_count < max_retries cfg
          then final (generate_response cfg rem (add_system_prompt cfg msgs) (Suc retry_count)
                 (backoff d (snd (attempt cfg rem msgs w))))
          else snd (attempt cfg rem msgs w))"
  by (subst generate_response_unfold) (simp add: final_def split: verdict.splits)

lemma returned_unfold:
  "returned (generate_response cfg rem msgs retry_count w) =
     (case judge cfg retry_count (snd (rem (posted w))) of
        Final r \<Rightarrow> r
      | Retry d m \<Rightarrow>
          if int retry_count < max_retries cfg
          then returned (generate_response cfg rem (add_system_prompt cfg msgs) (Suc retry_count)
                 (backoff d (snd (attempt cfg rem msgs w))))
          else Some m)"
  by (subst generate_response_unfold) (simp add: returned_def split: verdict.splits)

lemma posted_grows:
  "posted w < posted (final (generate_response cfg rem msgs retry_count w))"
proof (induction msgs retry_count w rule: retry_induct [where cfg = cfg and rem = rem])
  case (attempt msgs retry_count w)
  show ?case
  proof (cases "judge cfg retry_count (snd (rem (posted w)))")
    case (Final r)
    then show ?thesis by (simp add: final_unfold)
  next
    case (Retry d m)
    show ?thesis
    proof (cases "int retry_count < max_retries cfg")
      case True
      from attempt [OF True, of d] show ?thesis
        by (simp add: final_unfold Retry True)
    next
      case False
      then show ?thesis by (simp add: final_unfold Retry)
    qed
  qed
qed

lemma requests_call:
  "requests (trace (final (generate_response cfg rem msgs retry_count w))) =
     requests (trace w) @
       replicate (posted (final (generate_response cfg rem msgs retry_count w)) - posted w)
         (make_payload cfg (add_system_prompt cfg msgs))"
proof (induction msgs retry_count w rule: retry_induct [where cfg = cfg and rem = rem])
  case (attempt msgs retry_count w)
  show ?case
  proof (cases "judge cfg retry_count (snd (rem (posted w)))")
    case (Final r)
    then show ?thesis by (simp add: final_unfold requests_attempt)
  next
    case (Retry d m)
    show ?thesis
    proof (cases "int retry_count < max_retries cfg")
      case True
      let ?w = "backoff d (snd (attempt cfg rem msgs w))"
      let ?f = "final (generate_response cfg rem (add_system_prompt cfg msgs) (Suc retry_count) ?w)"
      have "Suc (posted w) < posted ?f"
        using posted_grows [of ?w cfg rem "add_system_prompt cfg msgs" "Suc retry_count"] by simp
      then have "posted ?f - posted w = Suc (posted ?f - Suc (posted w))" by simp
      with attempt [OF True, of d] show ?thesis
        by (simp add: final_unfold Retry True requests_attempt)
    next
      case False
      then show ?thesis by (simp add: final_unfold Retry requests_attempt)
    qed
  qed
qed


lemma trace_call:
  "trace (final (generate_response cfg rem msgs retry_count w)) =
     trace w @ since w (final (generate_response cfg rem msgs retry_count w))"
proof -
  have "\<exists>es. trace (final (generate_response cfg rem msgs retry_count w)) = trace w @ es"
  proof (induction msgs retry_count w rule: retry_induct [where cfg = cfg and rem = rem])
    case (attempt msgs retry_count w)
    have a: "\<exists>es. trace (snd (attempt cfg rem msgs w)) = trace w @ es"
      using trace_gate [of cfg w] by (auto simp add: trace_attempt)
    show ?case
    proof (cases "judge cfg retry_count (snd (rem (posted w)))")
      case (Final r)
      with a show ?thesis by (simp add: final_unfold)
    next
      case (Retry d m)
      show ?thesis
      proof (cases "int retry_count < max_retries cfg")
        case True
        from attempt [OF True, of d] a show ?thesis
          by (auto simp add: final_unfold Retry True trace_backoff)
      next
        case False
        with a show ?thesis by (simp add: final_unfold Retry)
      qed
    qed
  qed
  then show ?thesis by (auto simp add: since_def)
qed

lemma requests_since:
  "requests (since w (final (generate_response cfg rem msgs retry_count w))) =
     replicate (posted (final (generate_response cfg rem msgs retry_count w)) - posted w)
       (make_payload cfg (add_system_prompt cfg msgs))"
proof -
  let ?f = "final (generate_response cfg rem msgs retry_count w)"
  have "requests (trace ?f) = requests (trace w @ since w ?f)"
    by (rule arg_cong [OF trace_call])
  then have "requests (trace w) @ requests (since w ?f) =
      requests (trace w) @ replicate (posted ?f - posted w) (make_payload cfg (add_system_prompt cfg msgs))"
    by (simp add: requests_call)
  then show ?thesis by simp
qed

lemma terminal_call:
  assumes "judge cfg retry_count (snd (rem (posted w))) = Final r"
  shows "generate_response cfg rem msgs retry_count w =
           (r, add_system_prompt cfg msgs, snd (attempt cfg rem msgs w))"
  using assms by (subst generate_response_unfold) simp

lemma judge_retryable:
  "retryable out \<longleftrightarrow> (\<exists>d. judge cfg retry_count out = Retry d (failure_message out))"
  by (cases out) (auto simp add: judge_def split: option.splits list.splits sum.splits)

lemma judge_Retry_message:
  "judge cfg retry_count out = Retry d m \<Longrightarrow> m = failure_message out \<and> retryable out"
  by (cases out) (auto simp add: judge_def split: option.splits list.splits sum.splits if_splits)

lemma judge_Final:
  "judge cfg retry_count out = Final r \<Longrightarrow> \<not> retryable out"
  by (cases out) (auto simp add: judge_def split: option.splits list.splits sum.splits if_splits)

lemma is_system_system_message [simp]: "is_system (system_message cfg)"
  by (simp add: is_system_def system_message_def)

lemma add_system_prompt_cases:
  "add_system_prompt cfg msgs = (if msgs \<noteq> [] \<and> is_system (hd msgs) then msgs else system_message cfg # msgs)"
  by (simp add: add_system_prompt_def is_system_def)


lemma gate_same:
  assumes "clock w1 = clock w2" "request_times w1 = request_times w2"
    and "rate_limit_window c1 = rate_limit_window c2" "rate_limit_requests c1 = rate_limit_requests c2"
  shows "clock (gate c1 w1) = clock (gate c2 w2) \<and> request_times (gate c1 w1) = request_times (gate c2 w2)"
  using assms
  by (simp add: gate_def check_rate_limit_def wait_for_rate_limit_def sleep_def log_event_def Let_def)

lemma attempt_same:
  assumes "clock w1 = clock w2" "request_times w1 = request_times w2" "posted w1 = posted w2"
    and "rate_limit_window c1 = rate_limit_window c2" "rate_limit_requests c1 = rate_limit_requests c2"
  shows "clock (snd (attempt c1 rem m1 w1)) = clock (snd (attempt c2 rem m2 w2)) \<and>
         request_times (snd (attempt c1 rem m1 w1)) = request_times (snd (attempt c2 rem m2 w2))"
  using gate_same [OF assms(1,2,4,5)] assms(3)
  by (simp add: clock_attempt request_times_attempt)

lemma clock_backoff: "clock (backoff d w) = clock w + (case d of None \<Rightarrow> 0 | Some x \<Rightarrow> max 0 x)"
  by (simp add: backoff_def sleep_def log_event_def split: option.splits)

lemma judge_max_response_length [simp]:
  "judge (cfg\<lparr>max_response_length := m\<rparr>) retry_count out = judge cfg retry_count out"
  by (cases out) (simp_all add: judge_def)

lemma add_system_prompt_max_response_length [simp]:
  "add_system_prompt (cfg\<lparr>max_response_length := m\<rparr>) msgs = add_system_prompt cfg msgs"
  by (simp add: add_system_prompt_def system_message_def)

lemma length_limit_not_enforced:
  "\<forall>w1 :: world. clock w1 = clock w \<and> request_times w1 = request_times w \<and> posted w1 = posted w \<longrightarrow>
     returned (generate_response (cfg\<lparr>max_response_length := m\<rparr>) rem msgs retry_count w1) =
       returned (generate_response cfg rem msgs retry_count w) \<and>
     clock (final (generate_response (cfg\<lparr>max_response_length := m\<rparr>) rem msgs retry_count w1)) =
       clock (final (generate_response cfg rem msgs retry_count w)) \<and>
     request_times (final (generate_response (cfg\<lparr>max_response_length := m\<rparr>) rem msgs retry_count w1)) =
       request_times (final (generate_response cfg rem msgs retry_count w)) \<and>
     posted (final (generate_response (cfg\<lparr>max_response_length := m\<rparr>) rem msgs retry_count w1)) =
       posted (final (generate_response cfg rem msgs retry_count w))"
proof (induction msgs retry_count w rule: retry_induct [where cfg = cfg and rem = rem])
  case (attempt msgs retry_count w)
  let ?c = "cfg\<lparr>max_response_length := m\<rparr>"
  show ?case
  proof (intro allI impI)
    fix w1 :: world
    assume same: "clock w1 = clock w \<and> request_times w1 = request_times w \<and> posted w1 = posted w"
    have a: "clock (snd (attempt ?c rem msgs w1)) = clock (snd (attempt cfg rem msgs w)) \<and>
             request_times (snd (attempt ?c rem msgs w1)) = request_times (snd (attempt cfg rem msgs w))"
      using same by (intro attempt_same) simp_all
    show "returned (generate_response ?c rem msgs retry_count w1) =
            returned (generate_response cfg rem msgs retry_count w) \<and>
          clock (final (generate_response ?c rem msgs retry_count w1)) =
            clock (final (generate_response cfg rem msgs retry_count w)) \<and>
          request_times (final (generate_response ?c rem msgs retry_count w1)) =
            request_times (final (generate_response cfg rem msgs retry_count w)) \<and>
          posted (final (generate_response ?c rem msgs retry_count w1)) =
            posted (final (generate_response cfg rem msgs retry_count w))"
    proof (cases "judge cfg retry_count (snd (rem (posted w)))")
      case (Final r)
      with a same show ?thesis
        by (simp add: returned_unfold [of ?c] returned_unfold [of cfg]
            final_unfold [of ?c] final_unfold [of cfg])
    next
      case (Retry d msg)
      show ?thesis
      proof (cases "int retry_count < max_retries cfg")
        case True
        have "clock (backoff d (snd (attempt ?c rem msgs w1))) = clock (backoff d (snd (attempt cfg rem msgs w))) \<and>
              request_times (backoff d (snd (attempt ?c rem msgs w1))) =
                request_times (backoff d (snd (attempt cfg rem msgs w))) \<and>
              posted (backoff d (snd (attempt ?c rem msgs w1))) = posted (backoff d (snd (attempt cfg rem msgs w)))"
          using a same by (simp add: clock_backoff)
        with attempt [OF True, of d] same show ?thesis
          by (simp add: returned_unfold [of ?c] returned_unfold [of cfg]
              final_unfold [of ?c] final_unfold [of cfg] Retry True)
      next
        case False
        with a same show ?thesis
          by (simp add: returned_unfold [of ?c] returned_unfold [of cfg]
              final_unfold [of ?c] final_unfold [of cfg] Retry)
      qed
    qed
  qed
qed

lemma concat_chunks:
  "concat (map (\<lambda>k. take n (drop (n * k) xs)) [0 ..< m]) = take (n * m) xs"
proof (induction m)
  case 0
  show ?case by simp
next
  case (Suc m)
  have "take (n * m) xs @ take n (drop (n * m) xs) = take (n * m + n) xs"
    by (simp add: take_add)
  with Suc show ?case by (simp add: add.commute)
qed

lemma not_retryable_Final:
  "\<not> retryable out \<Longrightarrow> \<exists>r. judge cfg retry_count out = Final r"
  by (cases "judge cfg retry_count out") (auto dest: judge_Retry_message)

lemma final_terminal:
  "\<not> retryable (snd (rem (posted w))) \<Longrightarrow>
     final (generate_response cfg rem msgs retry_count w) = snd (attempt cfg rem msgs w)"
  using not_retryable_Final [of "snd (rem (posted w))" cfg retry_count]
  by (auto simp add: final_unfold)

lemma returned_terminal:
  "judge cfg retry_count (snd (rem (posted w))) = Final r \<Longrightarrow>
     returned (generate_response cfg rem msgs retry_count w) = r"
  by (simp add: returned_unfold)

lemma system_turns_add_system_prompt:
  "system_turns (add_system_prompt cfg msgs) =
     (if msgs \<noteq> [] \<and> is_system (hd msgs) then system_turns msgs else Suc (system_turns msgs))"
  by (simp add: add_system_prompt_cases system_turns_def)

lemma messages_make_payload [simp]: "messages (make_payload cfg msgs) = msgs"
  by (simp add: make_payload_def)

lemma max_tokens_make_payload [simp]: "max_tokens (make_payload cfg msgs) = max_response_length cfg"
  by (simp add: make_payload_def)

lemma records_append [simp]: "records (xs @ ys) = records xs @ records ys"
  by (induction xs rule: records.induct) simp_all

lemma checks_append [simp]: "checks (xs @ ys) = checks xs @ checks ys"
  by (induction xs rule: checks.induct) simp_all



lemma exhausted:
  "(\<forall>k \<le> nat (max_retries cfg - int retry_count). retryable (snd (rem (posted w + k)))) \<longrightarrow>
     posted (final (generate_response cfg rem msgs retry_count w)) =
       posted w + nat (max_retries cfg - int retry_count) + 1 \<and>
     returned (generate_response cfg rem msgs retry_count w) =
       Some (failure_message (snd (rem (posted w + nat (max_retries cfg - int retry_count)))))"
proof (induction msgs retry_count w rule: retry_induct [where cfg = cfg and rem = rem])
  case (attempt msgs retry_count w)
  show ?case
  proof
    assume all: "\<forall>k \<le> nat (max_retries cfg - int retry_count). retryable (snd (rem (posted w + k)))"
    then have "retryable (snd (rem (posted w + 0)))" by blast
    then obtain d where j: "judge cfg retry_count (snd (rem (posted w))) =
        Retry d (failure_message (snd (rem (posted w))))"
      using judge_retryable [of "snd (rem (posted w))" cfg retry_count] by auto
    show "posted (final (generate_response cfg rem msgs retry_count w)) =
            posted w + nat (max_retries cfg - int retry_count) + 1 \<and>
          returned (generate_response cfg rem msgs retry_count w) =
            Some (failure_message (snd (rem (posted w + nat (max_retries cfg - int retry_count)))))"
    proof (cases "int retry_count < max_retries cfg")
      case True
      then have n: "nat (max_retries cfg - int retry_count) =
          Suc (nat (max_retries cfg - int (Suc retry_count)))" by simp
      have "\<forall>k \<le> nat (max_retries cfg - int (Suc retry_count)).
          retryable (snd (rem (posted (backoff d (snd (Spec2Isabelle.attempt cfg rem msgs w))) + k)))"
      proof (intro allI impI)
        fix k
        assume "k \<le> nat (max_retries cfg - int (Suc retry_count))"
        then have "Suc k \<le> nat (max_retries cfg - int retry_count)" using n by simp
        with all have "retryable (snd (rem (posted w + Suc k)))" by blast
        then show "retryable (snd (rem (posted (backoff d (snd (Spec2Isabelle.attempt cfg rem msgs w))) + k)))"
          by simp
      qed
      with attempt [OF True, of d] show ?thesis
        by (simp add: final_unfold returned_unfold j True n)
    next
      case False
      then show ?thesis by (simp add: final_unfold returned_unfold j)
    qed
  qed
qed





lemma length_requests_post_times: "length (requests es) = length (post_times es)"
  by (induction es rule: requests.induct) simp_all

lemma post_count:
  "length (post_times (since w (final (generate_response cfg rem msgs retry_count w)))) =
     posted (final (generate_response cfg rem msgs retry_count w)) - posted w"
  using requests_since [of w cfg rem msgs retry_count]
    length_requests_post_times [of "since w (final (generate_response cfg rem msgs retry_count w))"]
  by simp


lemma BotConfig_simps [simp]:
  "max_retries BotConfig = 3" "retry_delay_base BotConfig = 1"
  "rate_limit_window BotConfig = 60" "rate_limit_requests BotConfig = 10"
  "max_response_length BotConfig = 2000"
  by (simp_all add: BotConfig_def)

lemma trace_OpenRouterClient [simp]:
  "trace (OpenRouterClient t) = []" "posted (OpenRouterClient t) = 0"
  "clock (OpenRouterClient t) = t" "request_times (OpenRouterClient t) = []"
  by (simp_all add: OpenRouterClient_def)

lemma sleeps_gate_ok:
  "int (length (filter (\<lambda>t. clock w - t < of_int (rate_limit_window cfg)) (request_times w)))
     < rate_limit_requests cfg \<Longrightarrow>
   trace (gate cfg w) = trace w @ [Checked True] \<and> clock (gate cfg w) = clock w"
  by (simp add: gate_def check_rate_limit_def log_event_def Let_def)


lemma check_rate_limit_eq:
  "check_rate_limit cfg w =
     (int (length (filter (\<lambda>t. clock w - t < of_int (rate_limit_window cfg)) (request_times w)))
        < rate_limit_requests cfg,
      w\<lparr>request_times := filter (\<lambda>t. clock w - t < of_int (rate_limit_window cfg)) (request_times w),
        trace := trace w @
          [Checked (int (length (filter (\<lambda>t. clock w - t < of_int (rate_limit_window cfg)) (request_times w)))
             < rate_limit_requests cfg)]\<rparr>)"
  by (simp add: check_rate_limit_def log_event_def Let_def)

lemma wait_deficit:
  assumes "request_times w1 \<noteq> []"
    and "\<forall>t \<in> set (request_times w1). clock w1 - t < of_int (rate_limit_window cfg)"
  shows "0 < of_int (rate_limit_window cfg) - (clock w1 - Min (set (request_times w1))) \<and>
         wait_for_rate_limit cfg w1 =
           w1\<lparr>clock := clock w1 + (of_int (rate_limit_window cfg) - (clock w1 - Min (set (request_times w1)))),
              trace := trace w1 @ [Slept (of_int (rate_limit_window cfg) - (clock w1 - Min (set (request_times w1))))]\<rparr>"
proof -
  have m: "min_list (request_times w1) = Min (set (request_times w1))"
    using assms(1) by (rule min_list_Min)
  have "Min (set (request_times w1)) \<in> set (request_times w1)"
    using assms(1) by (intro Min_in) simp_all
  with assms(2) have pos: "0 < of_int (rate_limit_window cfg) - (clock w1 - Min (set (request_times w1)))"
    by fastforce
  with assms(1) m show ?thesis
    by (simp add: wait_for_rate_limit_def sleep_def log_event_def Let_def)
qed


lemma clock_gate:
  "clock (gate cfg w) =
     (let kept = filter (\<lambda>t. clock w - t < of_int (rate_limit_window cfg)) (request_times w)
      in if int (length kept) < rate_limit_requests cfg \<or> kept = [] then clock w
         else Min (set kept) + of_int (rate_limit_window cfg))"
proof -
  let ?kept = "filter (\<lambda>t. clock w - t < of_int (rate_limit_window cfg)) (request_times w)"
  let ?w1 = "snd (check_rate_limit cfg w)"
  have w1: "request_times ?w1 = ?kept" "clock ?w1 = clock w"
    by (simp_all add: check_rate_limit_eq)
  show ?thesis
  proof (cases "int (length ?kept) < rate_limit_requests cfg")
    case True
    then show ?thesis by (simp add: gate_def check_rate_limit_eq Let_def)
  next
    case over: False
    show ?thesis
    proof (cases "?kept = []")
      case True
      with over show ?thesis
        by (simp add: gate_def check_rate_limit_eq wait_for_rate_limit_def Let_def)
    next
      case False
      have "\<forall>t \<in> set (request_times ?w1). clock ?w1 - t < of_int (rate_limit_window cfg)"
        by (simp add: w1)
      with False w1 have "wait_for_rate_limit cfg ?w1 =
          ?w1\<lparr>clock := clock ?w1 + (of_int (rate_limit_window cfg) - (clock ?w1 - Min (set (request_times ?w1)))),
             trace := trace ?w1 @ [Slept (of_int (rate_limit_window cfg) - (clock ?w1 - Min (set (request_times ?w1))))]\<rparr>"
        using wait_deficit [of ?w1 cfg] by simp
      then have "clock (wait_for_rate_limit cfg ?w1) = Min (set ?kept) + of_int (rate_limit_window cfg)"
        by (simp add: w1)
      moreover have "gate cfg w = wait_for_rate_limit cfg ?w1"
        using over by (simp add: gate_def check_rate_limit_eq Let_def)
      ultimately show ?thesis using over False by (simp add: Let_def)
    qed
  qed
qed

lemma terminal_call_facts:
  assumes "\<not> retryable (snd (rem (posted w)))"
  shows "post_times (trace (final (generate_response cfg rem msgs retry_count w))) =
           post_times (trace w) @ [clock (gate cfg w)]"
    and "request_times (final (generate_response cfg rem msgs retry_count w)) =
           filter (\<lambda>t. clock w - t < of_int (rate_limit_window cfg)) (request_times w) @ [clock (gate cfg w)]"
    and "clock (final (generate_response cfg rem msgs retry_count w)) =
           clock (gate cfg w) + fst (rem (posted w))"
    and "posted (final (generate_response cfg rem msgs retry_count w)) = Suc (posted w)"
  using assms final_terminal [where rem = rem and w = w and cfg = cfg and msgs = msgs
      and retry_count = retry_count]
  by (simp_all add: trace_attempt request_times_attempt request_times_gate clock_attempt)

lemma idle_simps [simp]:
  "clock (idle g w) = clock w + g" "request_times (idle g w) = request_times w"
  "posted (idle g w) = posted w" "trace (idle g w) = trace w"
  by (simp_all add: idle_def)

lemma third_call_waits:
  assumes B: "rate_limit_requests cfg = 2" and W: "rate_limit_window cfg = 60"
    and fresh: "request_times w = []"
    and ends: "\<forall>k < 3. \<not> retryable (snd (rem (posted w + k))) \<and> 0 \<le> fst (rem (posted w + k))"
    and gaps: "0 \<le> g1" "0 \<le> g2"
  shows "\<exists>p2 p3.
      post_times (trace (final (generate_response cfg rem m3 0 (idle g2
        (final (generate_response cfg rem m2 0 (idle g1
          (final (generate_response cfg rem m1 0 w)))))))))
      = post_times (trace w) @ [clock w, p2, p3] \<and> clock w + 60 \<le> p3"
proof -
  let ?w1 = "final (generate_response cfg rem m1 0 w)"
  let ?w2 = "final (generate_response cfg rem m2 0 (idle g1 ?w1))"
  let ?w3 = "final (generate_response cfg rem m3 0 (idle g2 ?w2))"
  from ends have t0: "\<not> retryable (snd (rem (posted w)))" "0 \<le> fst (rem (posted w))"
    and t1: "\<not> retryable (snd (rem (Suc (posted w))))" "0 \<le> fst (rem (Suc (posted w)))"
    and t2: "\<not> retryable (snd (rem (Suc (Suc (posted w)))))"
    using ends [rule_format, of 0] ends [rule_format, of 1] ends [rule_format, of 2] by simp_all
  have g0: "clock (gate cfg w) = clock w"
    by (simp add: clock_gate fresh)
  have w1: "post_times (trace ?w1) = post_times (trace w) @ [clock w]"
      "request_times ?w1 = [clock w]" "clock ?w1 = clock w + fst (rem (posted w))"
      "posted ?w1 = Suc (posted w)"
    using terminal_call_facts [where rem = rem and w = w and cfg = cfg and msgs = m1
        and retry_count = 0, OF t0(1)] by (simp_all add: g0 fresh)
  let ?c1 = "clock w + fst (rem (posted w)) + g1"
  have g1: "clock (gate cfg (idle g1 ?w1)) = ?c1"
    by (simp add: clock_gate w1 B Let_def)
  have t1': "\<not> retryable (snd (rem (posted (idle g1 ?w1))))" using t1 by (simp add: w1)
  have w2: "post_times (trace ?w2) = post_times (trace w) @ [clock w, ?c1]"
      "request_times ?w2 = filter (\<lambda>t. ?c1 - t < 60) [clock w] @ [?c1]"
      "clock ?w2 = ?c1 + fst (rem (Suc (posted w)))"
      "posted ?w2 = Suc (Suc (posted w))"
    using terminal_call_facts [where rem = rem and w = "idle g1 ?w1" and cfg = cfg and msgs = m2
        and retry_count = 0, OF t1'] by (simp_all add: g1 w1 W)
  let ?c2 = "?c1 + fst (rem (Suc (posted w))) + g2"
  have t2': "\<not> retryable (snd (rem (posted (idle g2 ?w2))))" using t2 by (simp add: w2)
  have w3: "post_times (trace ?w3) = post_times (trace w) @ [clock w, ?c1, clock (gate cfg (idle g2 ?w2))]"
    using terminal_call_facts(1) [where rem = rem and w = "idle g2 ?w2" and cfg = cfg and msgs = m3
        and retry_count = 0, OF t2'] by (simp add: w2)
  have "clock w + 60 \<le> clock (gate cfg (idle g2 ?w2))"
    using t0(2) t1(2) gaps
    by (auto simp add: clock_gate w2 B W Let_def split: if_splits)
  with w3 show ?thesis by blast
qed


lemma post_times_backoff [simp]: "post_times (trace (backoff d w)) = post_times (trace w)"
  by (simp add: trace_backoff split: option.splits)

lemma first_post_time:
  "\<exists>ps. post_times (since w (final (generate_response cfg rem msgs retry_count w))) =
          clock (gate cfg w) # ps"
proof -
  let ?f = "final (generate_response cfg rem msgs retry_count w)"
  let ?a = "snd (attempt cfg rem msgs w)"
  have a: "post_times (trace ?a) = post_times (trace w) @ [clock (gate cfg w)]"
    by (simp add: trace_attempt)
  have "\<exists>ps. post_times (trace ?f) = post_times (trace w) @ clock (gate cfg w) # ps"
  proof (cases "judge cfg retry_count (snd (rem (posted w)))")
    case (Final r)
    with a show ?thesis by (simp add: final_unfold)
  next
    case (Retry d m)
    show ?thesis
    proof (cases "int retry_count < max_retries cfg")
      case True
      let ?w' = "backoff d ?a"
      let ?g = "final (generate_response cfg rem (add_system_prompt cfg msgs) (Suc retry_count) ?w')"
      have "post_times (trace ?g) = post_times (trace ?w' @ since ?w' ?g)"
        by (rule arg_cong [OF trace_call])
      with a have "post_times (trace ?g) =
          post_times (trace w) @ clock (gate cfg w) # post_times (since ?w' ?g)"
        by simp
      then show ?thesis by (simp add: final_unfold Retry True)
    next
      case False
      with a show ?thesis by (simp add: final_unfold Retry)
    qed
  qed
  then obtain ps where ps: "post_times (trace ?f) = post_times (trace w) @ clock (gate cfg w) # ps"
    by blast
  have "post_times (trace ?f) = post_times (trace w @ since w ?f)"
    by (rule arg_cong [OF trace_call])
  with ps have "post_times (since w ?f) = clock (gate cfg w) # ps" by simp
  then show ?thesis by blast
qed


lemma status_429_retry_backs_off:
  "post_times (trace (final (generate_response BotConfig rate_limited_then_hello [user_hi] 0 (OpenRouterClient 0)))) = [0, 2] \<and>
   sleeps (trace (final (generate_response BotConfig rate_limited_then_hello [user_hi] 0 (OpenRouterClient 0)))) = [1]"
proof -
  let ?w0 = "OpenRouterClient 0"
  let ?a = "snd (attempt BotConfig rate_limited_then_hello [user_hi] ?w0)"
  let ?w1 = "backoff (Some 1) ?a"
  let ?m = "add_system_prompt BotConfig [user_hi]"
  let ?w2 = "snd (attempt BotConfig rate_limited_then_hello ?m ?w1)"
  have g0: "trace (gate BotConfig ?w0) = trace ?w0 @ [Checked True] \<and> clock (gate BotConfig ?w0) = clock ?w0"
    by (rule sleeps_gate_ok) simp
  have r1: "request_times ?a = [0]" "clock ?w1 = 2"
    using g0 by (simp_all add: request_times_attempt request_times_gate clock_attempt clock_backoff
        rate_limited_then_hello_def)
  have g1: "trace (gate BotConfig ?w1) = trace ?w1 @ [Checked True] \<and> clock (gate BotConfig ?w1) = clock ?w1"
    by (rule sleeps_gate_ok) (simp add: r1)
  have f: "final (generate_response BotConfig rate_limited_then_hello [user_hi] 0 ?w0) = ?w2"
    by (simp add: final_unfold judge_def rate_limited_then_hello_def hello_body_def read_content_def)
  show ?thesis
    using g0 g1 r1 by (simp add: f trace_attempt trace_backoff)
qed

lemma context_of_append_turn:
  "context_of k (append_turn n key r text s) =
     (if k = key
      then (if length (context_of key s) \<ge> n then tl (context_of key s) else context_of key s) @ [(r, text)]
      else context_of k s)"
  by (simp add: append_turn_def context_of_def Let_def)

lemma last_n_short: "length xs \<le> n \<Longrightarrow> last_n n xs = xs"
  by (simp add: last_n_def)

lemma length_last_n: "length (last_n n xs) \<le> n"
  by (simp add: last_n_def)

lemma last_n_append: "last_n n (last_n n xs @ ys) = last_n n (xs @ ys)"
proof (cases "length xs \<le> n")
  case True
  then show ?thesis by (simp add: last_n_short)
next
  case False
  then have "length xs + length ys - n = (length xs - n) + length ys" by simp
  with False show ?thesis by (simp add: last_n_def add.commute)
qed

lemma evict_then_append:
  assumes "0 < n" "length xs \<le> n"
  shows "(if length xs \<ge> n then tl xs else xs) @ [x] = last_n n (xs @ [x])"
  using assms by (cases xs) (auto simp add: last_n_def)

lemma context_of_appends:
  assumes "0 < n"
  shows "length (context_of key s) \<le> n \<Longrightarrow>
         context_of key (appends n calls s) = last_n n (context_of key s @ turns_for key calls)"
proof (induction calls arbitrary: s)
  case Nil
  then show ?case by (simp add: turns_for_def last_n_short)
next
  case (Cons call calls)
  obtain k r c where call: "call = (k, r, c)" by (cases call)
  show ?case
  proof (cases "k = key")
    case True
    have ctx: "context_of key (append_turn n key r c s) = last_n n (context_of key s @ [(r, c)])"
      using evict_then_append [OF assms Cons.prems, of "(r, c)"]
      by (simp add: context_of_append_turn)
    then have "length (context_of key (append_turn n key r c s)) \<le> n"
      by (simp add: length_last_n)
    from Cons.IH [OF this] ctx show ?thesis
      by (simp add: call True turns_for_def last_n_append)
  next
    case False
    have "context_of key (append_turn n k r c s) = context_of key s"
      using False by (simp add: context_of_append_turn)
    with Cons.IH [of "append_turn n k r c s"] Cons.prems show ?thesis
      by (simp add: call False turns_for_def)
  qed
qed


lemma strip_decompose:
  "\<exists>a b. s = a @ strip s @ b \<and> list_all is_space a \<and> list_all is_space b"
proof -
  let ?d = "dropWhile is_space s"
  let ?a = "takeWhile is_space s"
  let ?b = "rev (takeWhile is_space (rev ?d))"
  have "?d = rev (dropWhile is_space (rev ?d)) @ rev (takeWhile is_space (rev ?d))"
    by (metis rev_append rev_rev_ident takeWhile_dropWhile_id)
  then have d: "?d = strip s @ ?b" by (simp add: strip_def)
  have "s = ?a @ ?d" by simp
  with d have "s = ?a @ strip s @ ?b" by simp
  moreover have "list_all is_space ?a"
    by (auto simp add: list_all_iff dest: set_takeWhileD)
  moreover have "list_all is_space ?b"
    by (auto simp add: list_all_iff dest: set_takeWhileD)
  ultimately show ?thesis by blast
qed

lemma strip_ends:
  assumes "strip s \<noteq> []"
  shows "\<not> is_space (hd (strip s)) \<and> \<not> is_space (last (strip s))"
proof -
  let ?d = "dropWhile is_space s"
  let ?e = "dropWhile is_space (rev ?d)"
  have e: "?e \<noteq> []" using assms by (simp add: strip_def)
  then have l: "\<not> is_space (hd ?e)" by (rule hd_dropWhile)
  have "last (strip s) = hd ?e" using e by (simp add: strip_def last_rev)
  with l have last: "\<not> is_space (last (strip s))" by simp
  have "?d = rev ?e @ rev (takeWhile is_space (rev ?d))"
    by (metis rev_append rev_rev_ident takeWhile_dropWhile_id)
  then have d: "?d = strip s @ rev (takeWhile is_space (rev ?d))" by (simp add: strip_def)
  have dne: "?d \<noteq> []" using assms d by (metis append_is_Nil_conv)
  then have nd: "\<not> is_space (hd ?d)" by (rule hd_dropWhile)
  have "hd ?d = hd (strip s)" using assms d by (metis hd_append2)
  with nd last show ?thesis by simp
qed

lemma chunk_bounds:
  fixes n :: nat
  assumes "0 < n"
  shows "2000 * ((n + 1999) div 2000 - 1) < n \<and> n \<le> 2000 * ((n + 1999) div 2000) \<and>
         0 < (n + 1999) div 2000"
proof -
  have "2000 * ((n + 1999) div 2000) + (n + 1999) mod 2000 = n + 1999"
    by (rule mult_div_mod_eq)
  moreover have "(n + 1999) mod 2000 < 2000" by simp
  ultimately show ?thesis using assms by (cases "(n + 1999) div 2000") auto
qed

lemma send_response_absent [simp]:
  "send_response apology None = [apology]" "send_response apology (Some []) = [apology]"
  by (simp_all add: send_response_def)

lemma send_response_chunks:
  assumes "r \<noteq> []"
  shows "concat (send_response apology (Some r)) = r"
    and "Suc i < length (send_response apology (Some r)) \<Longrightarrow>
           length (send_response apology (Some r) ! i) = 2000"
    and "send_response apology (Some r) \<noteq> []"
    and "0 < length (last (send_response apology (Some r)))"
    and "length (last (send_response apology (Some r))) \<le> 2000"
proof -
  let ?n = "length r"
  let ?m = "(?n + 1999) div 2000"
  from assms have n: "0 < ?n" by simp
  note b = chunk_bounds [OF n]
  show "concat (send_response apology (Some r)) = r"
    using assms b by (simp add: send_response_def concat_chunks)
  show "send_response apology (Some r) \<noteq> []"
    using assms b by (simp add: send_response_def)
  show "length (send_response apology (Some r) ! i) = 2000"
    if "Suc i < length (send_response apology (Some r))"
  proof (cases "?n > 2000")
    case True
    with that assms have i: "Suc i < ?m" by (simp add: send_response_def)
    then have "2000 * Suc i \<le> 2000 * (?m - 1)" by simp
    with b have "2000 * i + 2000 \<le> ?n" by simp
    with True assms i show ?thesis by (simp add: send_response_def)
  next
    case False
    with that assms show ?thesis by (simp add: send_response_def)
  qed
  have l: "last (send_response apology (Some r)) =
      (if ?n > 2000 then take 2000 (drop (2000 * (?m - 1)) r) else r)"
    using assms b by (simp add: send_response_def last_map)
  show "0 < length (last (send_response apology (Some r)))"
    using b n by (simp add: l)
  have "2000 * ?m = 2000 * (?m - 1) + 2000" using b by (cases ?m) simp_all
  with b have "?n - 2000 * (?m - 1) \<le> 2000" by linarith
  then show "length (last (send_response apology (Some r))) \<le> 2000"
    by (simp add: l)
qed


section \<open>The claims\<close>

text \<open>
  C1 claims the delay \<^verbatim>\<open>retry_delay_base * 2^n\<close> between attempt \<open>n\<close> and attempt \<open>n+1\<close>
  for every retryable failure, a timeout included. The code at a timeout of the first
  attempt, with the default configuration (base delay 1): the post times out after 30
  seconds and the second attempt is posted at time 30, with no sleep in the whole call.
\<close>

theorem timeout_retry_skips_backoff:
  "post_times (trace (final (generate_response BotConfig timeout_then_hello [user_hi] 0 (OpenRouterClient 0)))) = [0, 30] \<and>
   sleeps (trace (final (generate_response BotConfig timeout_then_hello [user_hi] 0 (OpenRouterClient 0)))) = [] \<and>
   returned (generate_response BotConfig timeout_then_hello [user_hi] 0 (OpenRouterClient 0)) = Some ''hello''"
proof -
  let ?w0 = "OpenRouterClient 0"
  let ?w1 = "snd (attempt BotConfig timeout_then_hello [user_hi] ?w0)"
  let ?m = "add_system_prompt BotConfig [user_hi]"
  let ?w2 = "snd (attempt BotConfig timeout_then_hello ?m ?w1)"
  have g0: "trace (gate BotConfig ?w0) = trace ?w0 @ [Checked True] \<and> clock (gate BotConfig ?w0) = clock ?w0"
    by (rule sleeps_gate_ok) simp
  have r1: "request_times ?w1 = [0]" "clock ?w1 = 30"
    using g0 by (simp_all add: request_times_attempt request_times_gate clock_attempt timeout_then_hello_def)
  have g1: "trace (gate BotConfig ?w1) = trace ?w1 @ [Checked True] \<and> clock (gate BotConfig ?w1) = clock ?w1"
    by (rule sleeps_gate_ok) (simp add: r1)
  have f: "final (generate_response BotConfig timeout_then_hello [user_hi] 0 ?w0) = ?w2"
    by (simp add: final_unfold judge_def timeout_then_hello_def backoff_def hello_body_def read_content_def)
  have r: "returned (generate_response BotConfig timeout_then_hello [user_hi] 0 ?w0) = Some ''hello''"
    by (simp add: returned_unfold judge_def timeout_then_hello_def backoff_def hello_body_def
        read_content_def strip_def is_space_def)
  show ?thesis
    using g0 g1 r1 by (simp add: f r trace_attempt)
qed

text \<open>
  C2. With \<^verbatim>\<open>max_retries = 3\<close>, a call whose every attempt fails with a retryable failure
  posts exactly four times (the first attempt and three retries, never a fifth) and
  then returns, as an ordinary value, the text of the branch the last failure took.
\<close>

theorem retries_exhausted_after_four_attempts:
  assumes "max_retries cfg = 3"
    and "\<forall>k < 4. retryable (snd (rem (posted w + k)))"
  shows "returned (generate_response cfg rem msgs 0 w) = Some (failure_message (snd (rem (posted w + 3)))) \<and>
         posted (final (generate_response cfg rem msgs 0 w)) = posted w + 4 \<and>
         length (post_times (since w (final (generate_response cfg rem msgs 0 w)))) = 4"
proof -
  have "\<forall>k \<le> nat (max_retries cfg - int 0). retryable (snd (rem (posted w + k)))"
    using assms by simp
  with exhausted [of cfg 0 rem w msgs]
  have "posted (final (generate_response cfg rem msgs 0 w)) = posted w + 4 \<and>
        returned (generate_response cfg rem msgs 0 w) = Some (failure_message (snd (rem (posted w + 3))))"
    using assms(1) by simp
  then show ?thesis by (simp add: post_count)
qed

theorem retries_exhausted_after_four_attempts_witness:
  "returned (generate_response BotConfig (always (Response 429 (Data None))) [user_hi] 0 (OpenRouterClient 0)) =
     Some ''Sorry, I'm currently rate limited. Please try again later.'' \<and>
   returned (generate_response BotConfig (always TimeoutError) [user_hi] 0 (OpenRouterClient 0)) =
     Some ''Sorry, the request timed out. Please try again.'' \<and>
   returned (generate_response BotConfig (always (Response 503 (Data None))) [user_hi] 0 (OpenRouterClient 0)) =
     Some ''Sorry, I encountered an error: 503'' \<and>
   posted (final (generate_response BotConfig (always (Response 429 (Data None))) [user_hi] 0
     (OpenRouterClient 0))) = 4"
  using retries_exhausted_after_four_attempts [where cfg = BotConfig
      and rem = "always (Response 429 (Data None))" and w = "OpenRouterClient 0" and msgs = "[user_hi]"]
    retries_exhausted_after_four_attempts [where cfg = BotConfig
      and rem = "always TimeoutError" and w = "OpenRouterClient 0" and msgs = "[user_hi]"]
    retries_exhausted_after_four_attempts [where cfg = BotConfig
      and rem = "always (Response 503 (Data None))" and w = "OpenRouterClient 0" and msgs = "[user_hi]"]
  by (simp add: BotConfig_def always_def OpenRouterClient_def str_int_def)

text \<open>
  C3, as stated, fails: the client looks at the first element only. An input with a
  system turn that is not the first element is sent with two system turns.
\<close>

theorem second_system_turn_counterexample:
  "map system_turns (map messages (requests (trace (final
      (generate_response BotConfig (always (Response 200 hello_body)) [user_hi, system_other] 0
         (OpenRouterClient 0)))))) = [2]"
proof -
  have "\<not> retryable (snd (always (Response 200 hello_body) (posted (OpenRouterClient 0))))"
    by (simp add: always_def hello_body_def read_content_def)
  then have "final (generate_response BotConfig (always (Response 200 hello_body))
        [user_hi, system_other] 0 (OpenRouterClient 0)) =
      snd (attempt BotConfig (always (Response 200 hello_body)) [user_hi, system_other] (OpenRouterClient 0))"
    by (rule final_terminal)
  then show ?thesis
    by (simp add: requests_attempt OpenRouterClient_def add_system_prompt_def system_message_def
        system_turns_def is_system_def user_hi_def system_other_def)
qed

text \<open>
  C3, amended. Every request that a call posts (the first attempt and each retry)
  carries the same message list, and that list starts with a system turn: it is the
  input itself when the input starts with a system turn, and otherwise the input with
  exactly one configured system turn in front. System turns elsewhere in the input are
  kept: the request has as many system turns as the input, plus the one inserted.
\<close>

theorem system_turn_leads_every_request:
  "let sent = add_system_prompt cfg msgs;
       out = generate_response cfg rem msgs retry_count w
   in map messages (requests (since w (final out))) = replicate (posted (final out) - posted w) sent \<and>
      posted w < posted (final out) \<and>
      sent \<noteq> [] \<and> is_system (hd sent) \<and>
      (msgs \<noteq> [] \<and> is_system (hd msgs) \<longrightarrow> sent = msgs) \<and>
      (\<not> (msgs \<noteq> [] \<and> is_system (hd msgs)) \<longrightarrow> sent = system_message cfg # msgs) \<and>
      system_turns sent =
        (if msgs \<noteq> [] \<and> is_system (hd msgs) then system_turns msgs else Suc (system_turns msgs))"
  by (simp add: Let_def requests_since posted_grows system_turns_add_system_prompt)
     (simp add: add_system_prompt_cases)

theorem system_turn_leads_every_request_witness:
  "map messages (requests (since (OpenRouterClient 0) (final
      (generate_response BotConfig (always (Response 429 (Data None))) [user_hi] 0 (OpenRouterClient 0))))) =
     replicate (posted (final
      (generate_response BotConfig (always (Response 429 (Data None))) [user_hi] 0 (OpenRouterClient 0))))
       [system_message BotConfig, user_hi] \<and>
   system_turns [system_message BotConfig, user_hi] = 1"
  using system_turn_leads_every_request [where msgs = "[user_hi]" and cfg = BotConfig
      and rem = "always (Response 429 (Data None))" and retry_count = 0 and w = "OpenRouterClient 0"]
  by (simp add: Let_def add_system_prompt_cases is_system_def user_hi_def system_turns_def
      OpenRouterClient_def)

text \<open>
  C4 claims that a 200 response without a usable reply field ends the call without a
  retry. The code at a 200 response whose first choice has a message without content:
  the \<^verbatim>\<open>KeyError\<close> is caught by the general handler, the call posts four times and
  returns the text of that handler. Missing choices do end the call at once, with
  \<^verbatim>\<open>None\<close>.
\<close>

theorem missing_content_is_retried:
  "returned (generate_response BotConfig (always (Response 200 no_content_body)) [user_hi] 0 (OpenRouterClient 0)) =
     Some (''Sorry, I encountered an unexpected error: '' @ quoted ''content'') \<and>
   posted (final (generate_response BotConfig (always (Response 200 no_content_body)) [user_hi] 0
     (OpenRouterClient 0))) = 4 \<and>
   returned (generate_response BotConfig (always (Response 200 (Data None))) [user_hi] 0 (OpenRouterClient 0)) =
     None \<and>
   posted (final (generate_response BotConfig (always (Response 200 (Data None))) [user_hi] 0
     (OpenRouterClient 0))) = 1"
proof -
  have "\<forall>k \<le> nat (max_retries BotConfig - int 0).
      retryable (snd (always (Response 200 no_content_body) (posted (OpenRouterClient 0) + k)))"
    by (simp add: always_def no_content_body_def read_content_def)
  with exhausted [of BotConfig 0 "always (Response 200 no_content_body)" "OpenRouterClient 0" "[user_hi]"]
  have a: "returned (generate_response BotConfig (always (Response 200 no_content_body)) [user_hi] 0
        (OpenRouterClient 0)) = Some (''Sorry, I encountered an unexpected error: '' @ quoted ''content'') \<and>
      posted (final (generate_response BotConfig (always (Response 200 no_content_body)) [user_hi] 0
        (OpenRouterClient 0))) = 4"
    by (simp add: always_def no_content_body_def read_content_def)
  have b: "returned (generate_response BotConfig (always (Response 200 (Data None))) [user_hi] 0
        (OpenRouterClient 0)) = None \<and>
      posted (final (generate_response BotConfig (always (Response 200 (Data None))) [user_hi] 0
        (OpenRouterClient 0))) = 1"
    by (simp add: returned_unfold final_unfold judge_def always_def)
  from a b show ?thesis by simp
qed

text \<open>
  C5, as stated, fails: the code tests that the choices are not empty, never that the
  text is. A 200 response whose content is the empty string ends the call on the
  success branch, at its first post, and the empty string is returned.
\<close>

theorem empty_reply_counterexample:
  "returned (generate_response BotConfig (always (Response 200 empty_content_body)) [user_hi] 0
     (OpenRouterClient 0)) = Some [] \<and>
   posted (final (generate_response BotConfig (always (Response 200 empty_content_body)) [user_hi] 0
     (OpenRouterClient 0))) = 1"
  by (simp add: returned_unfold final_unfold judge_def always_def empty_content_body_def
      read_content_def strip_def)

text \<open>
  C5, amended. An attempt answered with status 200 ends the call with the reply exactly
  when the body has choices that are not empty and whose first element has a string as
  message content; the string may be empty or blank. The value returned is that string
  stripped of surrounding whitespace (what is removed in front and behind is
  whitespace only, and what is left neither starts nor ends with whitespace), and no
  further post is made. Without such a string the attempt does not succeed: missing or
  empty choices give \<^verbatim>\<open>None\<close>; otherwise the attempt is retried, or, when no retry is
  left, the call returns the error text. The reply \<open>" hello "\<close> is returned as
  \<open>"hello"\<close>.
\<close>

theorem content_is_returned_stripped:
  assumes "snd (rem (posted w)) = Response 200 body"
  shows "(case content_string body of
            Some s \<Rightarrow>
              returned (generate_response cfg rem msgs retry_count w) = Some (strip s) \<and>
              posted (final (generate_response cfg rem msgs retry_count w)) = Suc (posted w)
          | None \<Rightarrow>
              if choices body = None \<or> choices body = Some []
              then returned (generate_response cfg rem msgs retry_count w) = None \<and>
                   posted (final (generate_response cfg rem msgs retry_count w)) = Suc (posted w)
              else if int retry_count < max_retries cfg
              then Suc (posted w) < posted (final (generate_response cfg rem msgs retry_count w))
              else returned (generate_response cfg rem msgs retry_count w) =
                     Some (failure_message (Response 200 body))) \<and>
         (\<exists>a b. t = a @ strip t @ b \<and> list_all is_space a \<and> list_all is_space b) \<and>
         (strip t \<noteq> [] \<longrightarrow> \<not> is_space (hd (strip t)) \<and> \<not> is_space (last (strip t))) \<and>
         is_space c = (c \<in> set [CHR 0x09, CHR 0x0A, CHR 0x0B, CHR 0x0C, CHR 0x0D,
                                   CHR 0x1C, CHR 0x1D, CHR 0x1E, CHR 0x1F, CHR '' '',
                                   CHR 0x85, CHR 0xA0]) \<and>
         strip '' hello '' = ''hello'' \<and>
         strip ([CHR 0x85] @ ''hi'' @ [CHR 0xA0]) = ''hi''"
proof -
  have s: "strip '' hello '' = ''hello''" "strip ([CHR 0x85] @ ''hi'' @ [CHR 0xA0]) = ''hi''"
    by (simp_all add: strip_def is_space_def)
  have sp: "is_space c = (c \<in> set [CHR 0x09, CHR 0x0A, CHR 0x0B, CHR 0x0C, CHR 0x0D,
                                   CHR 0x1C, CHR 0x1D, CHR 0x1E, CHR 0x1F, CHR '' '',
                                   CHR 0x85, CHR 0xA0])"
    by (rule is_space_def)
  have main: "case content_string body of
            Some s \<Rightarrow>
              returned (generate_response cfg rem msgs retry_count w) = Some (strip s) \<and>
              posted (final (generate_response cfg rem msgs retry_count w)) = Suc (posted w)
          | None \<Rightarrow>
              if choices body = None \<or> choices body = Some []
              then returned (generate_response cfg rem msgs retry_count w) = None \<and>
                   posted (final (generate_response cfg rem msgs retry_count w)) = Suc (posted w)
              else if int retry_count < max_retries cfg
              then Suc (posted w) < posted (final (generate_response cfg rem msgs retry_count w))
              else returned (generate_response cfg rem msgs retry_count w) =
                     Some (failure_message (Response 200 body))"
  proof (cases "content_string body")
    case (Some s)
    then have "judge cfg retry_count (Response 200 body) = Final (Some (strip s))"
      by (auto simp add: content_string_def judge_def read_content_def
          split: option.splits list.splits choice.splits message_obj.splits jvalue.splits)
    with assms Some show ?thesis by (simp add: returned_unfold final_unfold)
  next
    case None
    show ?thesis
    proof (cases "choices body = None \<or> choices body = Some []")
      case True
      then have "judge cfg retry_count (Response 200 body) = Final None"
        by (auto simp add: judge_def)
      with assms None True show ?thesis by (simp add: returned_unfold final_unfold)
    next
      case False
      with None obtain e where e: "judge cfg retry_count (Response 200 body) =
            Retry None (''Sorry, I encountered an unexpected error: '' @ e)"
          "failure_message (Response 200 body) = ''Sorry, I encountered an unexpected error: '' @ e"
        by (auto simp add: content_string_def judge_def read_content_def
            split: option.splits list.splits choice.splits message_obj.splits jvalue.splits)
      show ?thesis
      proof (cases "int retry_count < max_retries cfg")
        case True
        have "posted (backoff None (snd (attempt cfg rem msgs w))) <
            posted (final (generate_response cfg rem (add_system_prompt cfg msgs) (Suc retry_count)
              (backoff None (snd (attempt cfg rem msgs w)))))"
          by (rule posted_grows)
        with assms None False True e show ?thesis by (simp add: final_unfold)
      next
        case F: False
        with assms None False e show ?thesis by (simp add: returned_unfold)
      qed
    qed
  qed
  from main strip_decompose [of t] strip_ends [of t] sp s show ?thesis by blast
qed

theorem content_is_returned_stripped_witness:
  "returned (generate_response BotConfig (always (Response 200 hello_body)) [user_hi] 0 (OpenRouterClient 0)) =
     Some ''hello'' \<and>
   posted (final (generate_response BotConfig (always (Response 200 hello_body)) [user_hi] 0
     (OpenRouterClient 0))) = 1"
  using content_is_returned_stripped [where rem = "always (Response 200 hello_body)"
      and w = "OpenRouterClient 0" and body = hello_body and cfg = BotConfig and msgs = "[user_hi]"
      and retry_count = 0]
  by (simp add: always_def content_string_def hello_body_def)

text \<open>
  C6. The budget check at the start of every attempt keeps exactly the ledger entries
  younger than the window; when the entries kept are at least the budget, and so (for a
  positive budget) there is an oldest entry, the task sleeps for the deficit
  \<open>W - (now - oldest)\<close>, which is positive, and the first post of the call is issued
  at that later time. With a budget of 2 and a window of 60, three calls one after the
  other on a fresh client, each ended by its first attempt: the third post is issued at
  least 60 after the first.
\<close>

theorem over_budget_call_waits_for_the_deficit:
  "(let kept = filter (\<lambda>t. clock w - t < of_int (rate_limit_window cfg)) (request_times w);
        deficit = of_int (rate_limit_window cfg) - (clock w - Min (set kept));
        (ok, w1) = check_rate_limit cfg w
    in request_times w1 = kept \<and> clock w1 = clock w \<and>
       ok = (int (length kept) < rate_limit_requests cfg) \<and>
       (0 < rate_limit_requests cfg \<and> \<not> ok \<longrightarrow> kept \<noteq> []) \<and>
       (\<not> ok \<and> kept \<noteq> [] \<longrightarrow>
          0 < deficit \<and>
          clock (wait_for_rate_limit cfg w1) = clock w + deficit \<and>
          sleeps (since w1 (wait_for_rate_limit cfg w1)) = [deficit]) \<and>
       (\<exists>ps. post_times (since w (final (generate_response cfg rem msgs retry_count w))) =
               (if ok \<or> kept = [] then clock w else clock w + deficit) # ps)) \<and>
   (rate_limit_requests cfg = 2 \<and> rate_limit_window cfg = 60 \<and> request_times w = [] \<and>
    (\<forall>k < 3. \<not> retryable (snd (rem (posted w + k))) \<and> 0 \<le> fst (rem (posted w + k))) \<and>
    0 \<le> g1 \<and> 0 \<le> g2 \<longrightarrow>
    (\<exists>p2 p3.
       post_times (trace (final (generate_response cfg rem m3 0 (idle g2
         (final (generate_response cfg rem m2 0 (idle g1
           (final (generate_response cfg rem m1 0 w)))))))))
       = post_times (trace w) @ [clock w, p2, p3] \<and> clock w + 60 \<le> p3))"
proof -
  let ?kept = "filter (\<lambda>t. clock w - t < of_int (rate_limit_window cfg)) (request_times w)"
  let ?deficit = "of_int (rate_limit_window cfg) - (clock w - Min (set ?kept))"
  let ?ok = "int (length ?kept) < rate_limit_requests cfg"
  let ?w1 = "snd (check_rate_limit cfg w)"
  have w1: "request_times ?w1 = ?kept" "clock ?w1 = clock w" "fst (check_rate_limit cfg w) = ?ok"
    by (simp_all add: check_rate_limit_eq)
  have ne: "?kept \<noteq> []" if "0 < rate_limit_requests cfg \<and> \<not> ?ok"
    using that by auto
  have over: "0 < ?deficit \<and> clock (wait_for_rate_limit cfg ?w1) = clock w + ?deficit \<and>
      sleeps (since ?w1 (wait_for_rate_limit cfg ?w1)) = [?deficit]" if "\<not> ?ok \<and> ?kept \<noteq> []"
  proof -
    from that have "request_times ?w1 \<noteq> []" by (simp add: w1)
    moreover have "\<forall>t \<in> set (request_times ?w1). clock ?w1 - t < of_int (rate_limit_window cfg)"
      by (simp add: w1)
    ultimately show ?thesis
      using wait_deficit [of ?w1 cfg] by (simp add: w1 since_def)
  qed
  have first: "\<exists>ps. post_times (since w (final (generate_response cfg rem msgs retry_count w))) =
      (if ?ok \<or> ?kept = [] then clock w else clock w + ?deficit) # ps"
  proof -
    have "clock (gate cfg w) = (if ?ok \<or> ?kept = [] then clock w else clock w + ?deficit)"
      by (simp add: clock_gate Let_def)
    with first_post_time [of w cfg rem msgs retry_count] show ?thesis by simp
  qed
  have general: "let kept = ?kept; deficit = of_int (rate_limit_window cfg) - (clock w - Min (set kept));
        (ok, w1) = check_rate_limit cfg w
    in request_times w1 = kept \<and> clock w1 = clock w \<and>
       ok = (int (length kept) < rate_limit_requests cfg) \<and>
       (0 < rate_limit_requests cfg \<and> \<not> ok \<longrightarrow> kept \<noteq> []) \<and>
       (\<not> ok \<and> kept \<noteq> [] \<longrightarrow>
          0 < deficit \<and>
          clock (wait_for_rate_limit cfg w1) = clock w + deficit \<and>
          sleeps (since w1 (wait_for_rate_limit cfg w1)) = [deficit]) \<and>
       (\<exists>ps. post_times (since w (final (generate_response cfg rem msgs retry_count w))) =
               (if ok \<or> kept = [] then clock w else clock w + deficit) # ps)"
    using w1 ne over first
    by (cases "check_rate_limit cfg w") (simp add: Let_def)
  have scenario: "rate_limit_requests cfg = 2 \<and> rate_limit_window cfg = 60 \<and> request_times w = [] \<and>
      (\<forall>k < 3. \<not> retryable (snd (rem (posted w + k))) \<and> 0 \<le> fst (rem (posted w + k))) \<and>
      0 \<le> g1 \<and> 0 \<le> g2 \<longrightarrow>
      (\<exists>p2 p3.
         post_times (trace (final (generate_response cfg rem m3 0 (idle g2
           (final (generate_response cfg rem m2 0 (idle g1
             (final (generate_response cfg rem m1 0 w)))))))))
         = post_times (trace w) @ [clock w, p2, p3] \<and> clock w + 60 \<le> p3)"
    using third_call_waits [of cfg w rem g1 g2 m3 m2 m1] by blast
  from general scenario show ?thesis by (rule conjI)
qed

theorem over_budget_call_waits_for_the_deficit_witness:
  "\<exists>p2 p3.
     post_times (trace (final (generate_response (BotConfig\<lparr>rate_limit_requests := 2\<rparr>)
       (always (Response 200 hello_body)) [user_hi] 0 (idle 0
         (final (generate_response (BotConfig\<lparr>rate_limit_requests := 2\<rparr>)
           (always (Response 200 hello_body)) [user_hi] 0 (idle 0
             (final (generate_response (BotConfig\<lparr>rate_limit_requests := 2\<rparr>)
               (always (Response 200 hello_body)) [user_hi] 0 (OpenRouterClient 0))))))))))
     = [0, p2, p3] \<and> 60 \<le> p3"
  using over_budget_call_waits_for_the_deficit [where cfg = "BotConfig\<lparr>rate_limit_requests := 2\<rparr>"
      and w = "OpenRouterClient 0" and rem = "always (Response 200 hello_body)"
      and ?g1.0 = 0 and ?g2.0 = 0 and ?m1.0 = "[user_hi]" and ?m2.0 = "[user_hi]" and ?m3.0 = "[user_hi]"]
  by (simp add: always_def hello_body_def read_content_def)



text \<open>
  C8. After any finite sequence of \<^verbatim>\<open>append\<close> calls on a fresh store, with a capacity of
  at least one turn, \<^verbatim>\<open>context(key)\<close> is the last \<open>maxTurns\<close> of the turns appended to
  that key, in call order, and never longer than \<open>maxTurns\<close>: the oldest turn is evicted
  first, whatever its role, and appends to other keys do not interfere.
\<close>

theorem context_is_the_last_max_turns:
  assumes "0 < maxTurns"
  shows "context_of key (appends maxTurns calls Map.empty) = last_n maxTurns (turns_for key calls) \<and>
         length (context_of key (appends maxTurns calls Map.empty)) \<le> maxTurns"
proof -
  have "context_of key (appends maxTurns calls Map.empty) =
      last_n maxTurns (context_of key Map.empty @ turns_for key calls)"
    using assms by (intro context_of_appends) (simp_all add: context_of_def)
  then show ?thesis by (simp add: context_of_def length_last_n)
qed

theorem context_is_the_last_max_turns_witness:
  "context_of (ChannelKey 7)
     (appends 2 [(ChannelKey 7, System, ''s''), (UserKey 1, User, ''x''), (ChannelKey 7, User, ''a''),
                 (ChannelKey 7, Assistant, ''b'')] Map.empty) =
     [(User, ''a''), (Assistant, ''b'')]"
  using context_is_the_last_max_turns [where maxTurns = 2 and key = "ChannelKey 7"
      and calls = "[(ChannelKey 7, System, ''s''), (UserKey 1, User, ''x''), (ChannelKey 7, User, ''a''),
                 (ChannelKey 7, Assistant, ''b'')]"]
  by (simp add: last_n_def turns_for_def)

text \<open>
  C9, as stated, fails: the client writes the configured maximal reply length into
  every request, as its \<^verbatim>\<open>max_tokens\<close> field (line 113).
\<close>

theorem max_reply_length_counterexample:
  "map max_tokens (requests (trace (final
      (generate_response (BotConfig\<lparr>max_response_length := 7\<rparr>) (always (Response 200 hello_body))
         [user_hi] 0 (OpenRouterClient 0))))) = [7] \<and>
   map max_tokens (requests (trace (final
      (generate_response BotConfig (always (Response 200 hello_body))
         [user_hi] 0 (OpenRouterClient 0))))) = [2000]"
proof -
  have "\<not> retryable (snd (always (Response 200 hello_body) (posted (OpenRouterClient 0))))"
    by (simp add: always_def hello_body_def read_content_def)
  then have "final (generate_response cfg (always (Response 200 hello_body)) [user_hi] 0 (OpenRouterClient 0)) =
      snd (attempt cfg (always (Response 200 hello_body)) [user_hi] (OpenRouterClient 0))" for cfg
    by (rule final_terminal)
  then show ?thesis
    by (simp add: requests_attempt OpenRouterClient_def BotConfig_def)
qed

text \<open>
  C9, amended. The client sends the configured maximal reply length as the
  \<^verbatim>\<open>max_tokens\<close> field of every request it posts, and does nothing else with it: the
  value returned, the caller's list, the ledger and the clock are the same whatever the
  configured length is, so no reply is cut or refused by the client. The reply sender
  does not read the configured length: a reply that is not empty is sent in consecutive
  pieces of exactly 2000 characters, a literal of its own, the last piece being the
  rest, not empty and of at most 2000 characters, and the pieces in order are the
  reply; for an absent or empty reply the caller's apology is sent instead.
\<close>

theorem max_reply_length_only_sent_as_max_tokens:
  "map max_tokens (requests (since w (final (generate_response cfg rem msgs retry_count w)))) =
     replicate (posted (final (generate_response cfg rem msgs retry_count w)) - posted w)
       (max_response_length cfg) \<and>
   posted w < posted (final (generate_response cfg rem msgs retry_count w)) \<and>
   returned (generate_response (cfg\<lparr>max_response_length := m\<rparr>) rem msgs retry_count w) =
     returned (generate_response cfg rem msgs retry_count w) \<and>
   caller_messages (generate_response (cfg\<lparr>max_response_length := m\<rparr>) rem msgs retry_count w) =
     caller_messages (generate_response cfg rem msgs retry_count w) \<and>
   request_times (final (generate_response (cfg\<lparr>max_response_length := m\<rparr>) rem msgs retry_count w)) =
     request_times (final (generate_response cfg rem msgs retry_count w)) \<and>
   clock (final (generate_response (cfg\<lparr>max_response_length := m\<rparr>) rem msgs retry_count w)) =
     clock (final (generate_response cfg rem msgs retry_count w)) \<and>
   send_response apology None = [apology] \<and>
   send_response apology (Some []) = [apology] \<and>
   (r \<noteq> [] \<longrightarrow>
      concat (send_response apology (Some r)) = r \<and>
      (\<forall>i. Suc i < length (send_response apology (Some r)) \<longrightarrow>
           length (send_response apology (Some r) ! i) = 2000) \<and>
      send_response apology (Some r) \<noteq> [] \<and>
      0 < length (last (send_response apology (Some r))) \<and>
      length (last (send_response apology (Some r))) \<le> 2000)"
proof -
  have chunks: "r \<noteq> [] \<longrightarrow>
      concat (send_response apology (Some r)) = r \<and>
      (\<forall>i. Suc i < length (send_response apology (Some r)) \<longrightarrow>
           length (send_response apology (Some r) ! i) = 2000) \<and>
      send_response apology (Some r) \<noteq> [] \<and>
      0 < length (last (send_response apology (Some r))) \<and>
      length (last (send_response apology (Some r))) \<le> 2000"
    using send_response_chunks [where r = r and apology = apology] by blast
  have core: "map max_tokens (requests (since w (final (generate_response cfg rem msgs retry_count w)))) =
     replicate (posted (final (generate_response cfg rem msgs retry_count w)) - posted w)
       (max_response_length cfg) \<and>
   posted w < posted (final (generate_response cfg rem msgs retry_count w)) \<and>
   returned (generate_response (cfg\<lparr>max_response_length := m\<rparr>) rem msgs retry_count w) =
     returned (generate_response cfg rem msgs retry_count w) \<and>
   caller_messages (generate_response (cfg\<lparr>max_response_length := m\<rparr>) rem msgs retry_count w) =
     caller_messages (generate_response cfg rem msgs retry_count w) \<and>
   request_times (final (generate_response (cfg\<lparr>max_response_length := m\<rparr>) rem msgs retry_count w)) =
     request_times (final (generate_response cfg rem msgs retry_count w)) \<and>
   clock (final (generate_response (cfg\<lparr>max_response_length := m\<rparr>) rem msgs retry_count w)) =
     clock (final (generate_response cfg rem msgs retry_count w))"
    using length_limit_not_enforced [where w = w and cfg = cfg and m = m and rem = rem
        and msgs = msgs and retry_count = retry_count, THEN spec, of w]
    by (simp add: requests_since posted_grows messages_after)
  have absent: "send_response apology None = [apology] \<and> send_response apology (Some []) = [apology]"
    by simp
  from core absent chunks show ?thesis by blast
qed

theorem max_reply_length_only_sent_as_max_tokens_witness:
  "returned (generate_response (BotConfig\<lparr>max_response_length := 7\<rparr>) (always (Response 200 hello_body))
      [user_hi] 0 (OpenRouterClient 0)) =
   returned (generate_response BotConfig (always (Response 200 hello_body)) [user_hi] 0 (OpenRouterClient 0)) \<and>
   concat (send_response apology_message (Some ''hello'')) = ''hello'' \<and>
   length (last (send_response apology_message (Some ''hello''))) \<le> 2000 \<and>
   send_response apology_message (Some []) = [apology_message]"
  using max_reply_length_only_sent_as_max_tokens [where cfg = BotConfig and m = 7
      and rem = "always (Response 200 hello_body)" and msgs = "[user_hi]" and retry_count = 0
      and w = "OpenRouterClient 0" and r = "''hello''" and apology = apology_message]
  by simp

text \<open>
  C10. When the list passed as \<^verbatim>\<open>messages\<close> does not start with a system turn, the call
  inserts the system turn at index 0 of the caller's own list object, so after the call
  the caller sees a list one element longer; when the list starts with a system turn,
  the caller's list is unchanged. This holds for every outcome of the call.
\<close>

theorem caller_list_mutated_in_place:
  "(\<not> (msgs \<noteq> [] \<and> is_system (hd msgs)) \<longrightarrow>
      caller_messages (generate_response cfg rem msgs retry_count w) = system_message cfg # msgs \<and>
      length (caller_messages (generate_response cfg rem msgs retry_count w)) = length msgs + 1) \<and>
   (msgs \<noteq> [] \<and> is_system (hd msgs) \<longrightarrow>
      caller_messages (generate_response cfg rem msgs retry_count w) = msgs)"
  by (simp add: messages_after add_system_prompt_cases)

theorem caller_list_mutated_in_place_witness:
  "caller_messages (generate_response BotConfig (always (Response 200 hello_body)) [user_hi] 0
      (OpenRouterClient 0)) = [system_message BotConfig, user_hi] \<and>
   caller_messages (generate_response BotConfig (always (Response 200 hello_body))
      [system_other, user_hi] 0 (OpenRouterClient 0)) = [system_other, user_hi]"
  using caller_list_mutated_in_place [where msgs = "[user_hi]" and cfg = BotConfig
      and rem = "always (Response 200 hello_body)" and retry_count = 0 and w = "OpenRouterClient 0"]
    caller_list_mutated_in_place [where msgs = "[system_other, user_hi]" and cfg = BotConfig
      and rem = "always (Response 200 hello_body)" and retry_count = 0 and w = "OpenRouterClient 0"]
  by (simp add: is_system_def user_hi_def system_other_def)

end
